theory Spec2Isabelle
  imports Main "HOL-Library.Sublist"
begin

section \<open>The FILM frame interpolation nodes (nodes/image\_interpolation.py)\<close>

text \<open>
  The module defines two nodes: \<open>LoadFilmModel\<close>, which finds a model directory and
  builds an interpolator on it, and \<open>FilmInterpolation\<close>, which drives the interpolator
  over a batch of images. Everything the nodes call outside the module (the filesystem,
  the logger, TensorFlow's device list, the host's progress bar and interrupt flag, the
  interpolation library) is a parameter of the model or an event of the trace a node
  returns next to its result.
\<close>

subsection \<open>Log messages, errors and traces\<close>

type_synonym path = "string list"

datatype level = Debug | Info | Warning | Error

text \<open>The f-strings of the module, one constructor per template, with the values they format.\<close>

datatype msg =
    ModelDoesNotExist path
  | LoadingModel path
  | GpuNotAvailable
  | GpuAvailable "string list"
  | WillInterpolate nat
  | Returning nat
  | OutputShape "nat list"
  | OutputType

text \<open>
  What a node can raise: \<open>ValueError\<close> is raised by \<open>load_model\<close> itself;
  \<open>IndexError\<close> and \<open>RuntimeError\<close> come from torch (\<open>size(0)\<close> of a tensor without
  dimensions, \<open>torch.cat\<close>); \<open>InterruptProcessingException\<close> is what the host's
  \<open>throw_exception_if_processing_interrupted\<close> raises; \<open>DelegateError\<close> is any error of
  the interpolation library, passed on unchanged.
\<close>

datatype 'e error =
    ValueError msg
  | IndexError
  | RuntimeError
  | InterruptProcessingException
  | DelegateError 'e

text \<open>A trace is the list of log lines and outside calls a node makes, in order.\<close>

datatype 'c event = Log level msg | Call 'c

subsection \<open>Paths and the filesystem\<close>

text \<open>
  A path is the list of its components below the root. A filesystem is the list of the
  entries it holds, each by its full path; a path exists when it is an entry or a
  directory above one, which is what \<open>Path.exists\<close> answers.
\<close>

type_synonym filesystem = "path list"

definition exists_path :: "filesystem \<Rightarrow> path \<Rightarrow> bool" where
  "exists_path fs p = list_ex (prefix p) fs"

text \<open>\<open>p / name\<close> of pathlib, for a name that is a single component.\<close>

definition joinpath :: "path \<Rightarrow> string \<Rightarrow> path" where
  "joinpath p name = p @ [name]"

definition as_posix :: "path \<Rightarrow> string" where
  "as_posix p = (if p = [] then ''/'' else concat (map (\<lambda>c. CHR ''/'' # c) p))"

subsection \<open>LoadFilmModel\<close>

datatype load_call = NewInterpolator string

text \<open>
  \<open>load_model\<close>: \<open>fs\<close> is the filesystem, \<open>models_dir\<close> is \<open>folder_paths.models_dir\<close>
  and \<open>Interpolator\<close> is the constructor of the interpolation library, which returns a
  handle or fails.
\<close>

definition load_model ::
  "filesystem \<Rightarrow> path \<Rightarrow> (string \<Rightarrow> 'e + 'h) \<Rightarrow> string
    \<Rightarrow> load_call event list \<times> ('e error + 'h)" where
  "load_model fs models_dir Interpolator film_model =
    (let model_path0 = joinpath (joinpath models_dir ''FILM'') film_model;
         model_path =
           (if \<not> exists_path fs (joinpath model_path0 ''saved_model.pb'')
            then joinpath model_path0 ''saved_model''
            else model_path0)
     in if \<not> exists_path fs model_path
        then ([Log Error (ModelDoesNotExist model_path)],
              Inl (ValueError (ModelDoesNotExist model_path)))
        else ([Log Info (LoadingModel model_path), Call (NewInterpolator (as_posix model_path))],
              (case Interpolator (as_posix model_path) of
                 Inl e \<Rightarrow> Inl (DelegateError e)
               | Inr h \<Rightarrow> Inr h)))"

subsection \<open>Input schemas\<close>

text \<open>
  An entry of \<open>INPUT_TYPES\<close>: a list of choices with its default, an \<open>INT\<close> (\<open>IntInput\<close>) with its
  default, minimum and maximum, or a bare type tag.
\<close>

datatype input_type =
    Combo "string list" string
  | IntInput int int int
  | Tag string

definition LoadFilmModel_INPUT_TYPES :: "(string \<times> input_type) list" where
  "LoadFilmModel_INPUT_TYPES = [(''film_model'', Combo [''L1'', ''Style'', ''VGG''] ''Style'')]"

definition FilmInterpolation_INPUT_TYPES :: "(string \<times> input_type) list" where
  "FilmInterpolation_INPUT_TYPES =
    [(''images'', Tag ''IMAGE''),
     (''interpolate'', IntInput 2 1 50),
     (''film_model'', Tag ''FILM_MODEL'')]"

datatype arg = StrArg string | IntArg int | ObjArg string

text \<open>
  Modelled from the spec: the host's validation of an argument against a declared entry
  is not part of the module. The spec has the host restrict a choice to the declared set
  and an integer to the declared range; an object is matched by its type tag.
\<close>

fun admits :: "input_type \<Rightarrow> arg \<Rightarrow> bool" where
  "admits (Combo choices d) (StrArg s) = (s \<in> set choices)"
| "admits (IntInput d lo hi) (IntArg i) = (lo \<le> i \<and> i \<le> hi)"
| "admits (Tag t) (ObjArg t') = (t = t')"
| "admits _ _ = False"

subsection \<open>Arrays and tensors\<close>

text \<open>
  A numpy array and a torch tensor are a shape and the elements in row-major order. The
  element type and the dtype are not modelled: no operation of the module looks at them.
\<close>

record 'a ndarray =
  np_shape :: "nat list"
  np_data :: "'a list"

record 'a tensor =
  shape :: "nat list"
  dat :: "'a list"

definition from_numpy :: "'a ndarray \<Rightarrow> 'a tensor" where
  "from_numpy a = \<lparr>shape = np_shape a, dat = np_data a\<rparr>"

text \<open>\<open>t.size(0)\<close>: torch raises \<open>IndexError\<close> on a tensor without dimensions.\<close>

definition size0 :: "'a tensor \<Rightarrow> 'e error + nat" where
  "size0 t = (case shape t of [] \<Rightarrow> Inl IndexError | n # _ \<Rightarrow> Inr n)"

text \<open>
  \<open>t[i]\<close> for \<open>i < t.size(0)\<close>, the only way the module indexes (\<open>i\<close> ranges over
  \<open>range(n)\<close>): the \<open>i\<close>-th slice along the first dimension.
\<close>

definition index0 :: "'a tensor \<Rightarrow> nat \<Rightarrow> 'a tensor" where
  "index0 t i =
    (let m = prod_list (tl (shape t))
     in \<lparr>shape = tl (shape t), dat = take m (drop (i * m) (dat t))\<rparr>)"

definition unsqueeze0 :: "'a tensor \<Rightarrow> 'a tensor" where
  "unsqueeze0 t = t\<lparr>shape := 1 # shape t\<rparr>"

text \<open>
  \<open>torch.cat(ts, dim=0)\<close> on tensors of at least one dimension, as every operand is at
  the call site: it raises \<open>RuntimeError\<close> on an empty list and when the operands differ
  in a dimension other than the first.
\<close>

definition cat0 :: "'a tensor list \<Rightarrow> 'e error + 'a tensor" where
  "cat0 ts =
    (case ts of
       [] \<Rightarrow> Inl RuntimeError
     | t # _ \<Rightarrow>
         if list_all (\<lambda>u. shape u \<noteq> [] \<and> tl (shape u) = tl (shape t)) ts
         then Inr \<lparr>shape = sum_list (map (\<lambda>u. hd (shape u)) ts) # tl (shape t),
                   dat = concat (map dat ts)\<rparr>
         else Inl RuntimeError)"

subsection \<open>The interpolation library and the host\<close>

text \<open>A frame the library yields is a numpy array or already a tensor.\<close>

datatype 'a frame = Ndarray "'a ndarray" | Tensor "'a tensor"

text \<open>
  The generator \<open>util.interpolate_recursively_from_memory\<close> returns, unfolded: it
  yields a frame and goes on, stops, or raises. It yields finitely many frames.
\<close>

datatype ('a, 'e) gen = Stop | Yield "'a frame" "('a, 'e) gen" | Raise 'e

fun yields :: "('a, 'e) gen \<Rightarrow> 'a frame list" where
  "yields Stop = []"
| "yields (Raise e) = []"
| "yields (Yield f g) = f # yields g"

fun raises :: "('a, 'e) gen \<Rightarrow> 'e option" where
  "raises Stop = None"
| "raises (Raise e) = Some e"
| "raises (Yield f g) = raises g"

text \<open>
  The host and the libraries as \<open>do_interpolation\<close> sees them: the GPUs TensorFlow
  lists, the value of the host's interrupt flag at the \<open>k\<close>-th call of
  \<open>throw_exception_if_processing_interrupted\<close> (counted from 0), and the generator
  function of the interpolation library.
\<close>

record ('a, 'm, 'e) host =
  list_physical_devices :: "string list"
  processing_interrupted :: "nat \<Rightarrow> bool"
  interpolate_recursively_from_memory :: "'a tensor list \<Rightarrow> nat \<Rightarrow> 'm \<Rightarrow> ('a, 'e) gen"

datatype ('a, 'm) run_call =
    ListPhysicalDevices
  | NewProgressBar nat
  | Interpolate "'a tensor list" nat 'm
  | Yielded "'a frame"
  | ThrowIfInterrupted
  | PbarUpdate nat

subsection \<open>FilmInterpolation\<close>

definition to_tensor :: "'a frame \<Rightarrow> 'a tensor" where
  "to_tensor frame = (case frame of Ndarray a \<Rightarrow> from_numpy a | Tensor t \<Rightarrow> t)"

text \<open>
  The \<open>for\<close> loop of \<open>do_interpolation\<close>: \<open>k\<close> counts the interrupt checks made so far
  and \<open>out_tensors\<close> is the accumulator. Each frame is appended, then the interrupt flag
  is checked, then the progress bar is updated.
\<close>

fun for_frames ::
  "(nat \<Rightarrow> bool) \<Rightarrow> nat \<Rightarrow> ('a, 'e) gen \<Rightarrow> 'a tensor list
    \<Rightarrow> ('a, 'm) run_call event list \<times> ('e error + 'a tensor list)" where
  "for_frames interrupted k Stop out_tensors = ([], Inr out_tensors)"
| "for_frames interrupted k (Raise e) out_tensors = ([], Inl (DelegateError e))"
| "for_frames interrupted k (Yield frame g) out_tensors =
    (let out_tensors' = out_tensors @ [to_tensor frame]
     in if interrupted k
        then ([Call (Yielded frame), Call ThrowIfInterrupted], Inl InterruptProcessingException)
        else (case for_frames interrupted (Suc k) g out_tensors' of
                (tr, r) \<Rightarrow>
                  (Call (Yielded frame) # Call ThrowIfInterrupted # Call (PbarUpdate 1) # tr, r)))"

text \<open>
  \<open>interpolate\<close> is a natural number: the schema's minimum of 1 keeps it from the
  negative exponents where Python's \<open>2 ** interpolate\<close> is a float.
\<close>

definition do_interpolation ::
  "('a, 'm, 'e) host \<Rightarrow> 'a tensor \<Rightarrow> nat \<Rightarrow> 'm
    \<Rightarrow> ('a, 'm) run_call event list \<times> ('e error + 'a tensor)" where
  "do_interpolation h images interpolate film_model =
    (case size0 images of
       Inl e \<Rightarrow> ([], Inl e)
     | Inr n \<Rightarrow>
         if n = 0 then ([], Inr images)
         else
           (let available_gpus = list_physical_devices h;
                gpu_log =
                  (if length available_gpus = 0 then Log Warning GpuNotAvailable
                   else Log Debug (GpuAvailable available_gpus));
                num_frames = (n - 1) * (2 ^ interpolate - 1);
                in_frames = map (index0 images) [0..<n];
                pre = [Call ListPhysicalDevices, gpu_log, Log Debug (WillInterpolate num_frames),
                       Call (NewProgressBar num_frames),
                       Call (Interpolate in_frames interpolate film_model)]
            in case for_frames (processing_interrupted h) 0
                      (interpolate_recursively_from_memory h in_frames interpolate film_model) []
               of
                 (tr, Inl e) \<Rightarrow> (pre @ tr, Inl e)
               | (tr, Inr out_tensors) \<Rightarrow>
                   (case cat0 (map unsqueeze0 out_tensors) of
                      Inl e \<Rightarrow> (pre @ tr, Inl e)
                    | Inr out \<Rightarrow>
                        (pre @ tr @
                           [Log Debug (Returning (hd (shape out))),
                            Log Debug (OutputShape (shape out)),
                            Log Debug OutputType],
                         Inr out))))"

subsection \<open>What a trace says about progress\<close>

text \<open>The sum of the increments the node asked of the progress bar.\<close>

fun progress :: "('a, 'm) run_call event list \<Rightarrow> nat" where
  "progress [] = 0"
| "progress (Call (PbarUpdate i) # tr) = i + progress tr"
| "progress (_ # tr) = progress tr"

text \<open>The frames the node pulled from the generator, in order.\<close>

fun pulled :: "('a, 'm) run_call event list \<Rightarrow> 'a frame list" where
  "pulled [] = []"
| "pulled (Call (Yielded f) # tr) = f # pulled tr"
| "pulled (_ # tr) = pulled tr"

subsection \<open>Names for the parts of a run\<close>

text \<open>
  The generator a run obtains from the library: the generator function is called once,
  on the slices of the batch, the depth and the model handle.
\<close>

definition delegate_gen :: "('a, 'm, 'e) host \<Rightarrow> 'a tensor \<Rightarrow> nat \<Rightarrow> 'm \<Rightarrow> ('a, 'e) gen" where
  "delegate_gen h images interpolate film_model =
    interpolate_recursively_from_memory h
      (map (index0 images) [0..<hd (shape images)]) interpolate film_model"

text \<open>The events of a run on a non-empty batch before the loop starts.\<close>

definition preamble ::
  "('a, 'm, 'e) host \<Rightarrow> 'a tensor \<Rightarrow> nat \<Rightarrow> 'm \<Rightarrow> ('a, 'm) run_call event list" where
  "preamble h images interpolate film_model =
    [Call ListPhysicalDevices,
     (if list_physical_devices h = [] then Log Warning GpuNotAvailable
      else Log Debug (GpuAvailable (list_physical_devices h))),
     Log Debug (WillInterpolate ((hd (shape images) - 1) * (2 ^ interpolate - 1))),
     Call (NewProgressBar ((hd (shape images) - 1) * (2 ^ interpolate - 1))),
     Call (Interpolate (map (index0 images) [0..<hd (shape images)]) interpolate film_model)]"

text \<open>The events of one full pass through the loop body, for the frame \<open>f\<close>.\<close>

definition iteration :: "'a frame \<Rightarrow> ('a, 'm) run_call event list" where
  "iteration f = [Call (Yielded f), Call ThrowIfInterrupted, Call (PbarUpdate 1)]"

text \<open>The events of a pass that ends at the interrupt check.\<close>

definition interrupted_iteration :: "'a frame \<Rightarrow> ('a, 'm) run_call event list" where
  "interrupted_iteration f = [Call (Yielded f), Call ThrowIfInterrupted]"

text \<open>The three debug lines before a normal return.\<close>

definition epilogue :: "'a tensor \<Rightarrow> ('a, 'm) run_call event list" where
  "epilogue out =
    [Log Debug (Returning (hd (shape out))), Log Debug (OutputShape (shape out)),
     Log Debug OutputType]"

text \<open>The batch \<open>torch.cat\<close> builds from frames of the shape \<open>sh\<close>.\<close>

definition batch_of :: "nat list \<Rightarrow> 'a tensor list \<Rightarrow> 'a tensor" where
  "batch_of sh ts = \<lparr>shape = length ts # sh, dat = concat (map dat ts)\<rparr>"

text \<open>A tensor holds as many elements as its shape says.\<close>

definition well_formed :: "'a tensor \<Rightarrow> bool" where
  "well_formed t = (length (dat t) = prod_list (shape t))"

text \<open>The log lines about the GPU.\<close>

fun is_gpu_log :: "'c event \<Rightarrow> bool" where
  "is_gpu_log (Log l GpuNotAvailable) = True"
| "is_gpu_log (Log l (GpuAvailable ds)) = True"
| "is_gpu_log e = False"

subsection \<open>A stub library and host\<close>

text \<open>
  A batch of three images of shape \<open>1 \<times> 1 \<times> 3\<close>, and a library that yields two frames
  for it at depth 1 (one per adjacent pair), the first as an array and the second as a
  tensor.
\<close>

definition stub_images :: "nat tensor" where
  "stub_images = \<lparr>shape = [3, 1, 1, 3], dat = [10, 11, 12, 13, 14, 15, 16, 17, 18]\<rparr>"

definition frame_a :: "nat frame" where
  "frame_a = Ndarray \<lparr>np_shape = [1, 1, 3], np_data = [1, 2, 3]\<rparr>"

definition frame_b :: "nat frame" where
  "frame_b = Tensor \<lparr>shape = [1, 1, 3], dat = [4, 5, 6]\<rparr>"

definition stub_gen :: "(nat, unit) gen" where
  "stub_gen = Yield frame_a (Yield frame_b Stop)"

definition stub_host :: "(nat, unit, unit) host" where
  "stub_host =
    \<lparr>list_physical_devices = [], processing_interrupted = (\<lambda>k. False),
     interpolate_recursively_from_memory = (\<lambda>in_frames d m. stub_gen)\<rparr>"

text \<open>The same host with the interrupt flag found set at the second check.\<close>

definition cancelling_host :: "(nat, unit, unit) host" where
  "cancelling_host = stub_host\<lparr>processing_interrupted := (\<lambda>k. k = 1)\<rparr>"

text \<open>An empty batch.\<close>

definition empty_images :: "nat tensor" where
  "empty_images = \<lparr>shape = [0, 1, 1, 3], dat = []\<rparr>"

text \<open>
  A models directory and two filesystems: one with the \<open>Style\<close> model saved at the top
  of its directory and the \<open>L1\<close> model under \<open>saved_model\<close>, one without any model.
\<close>

definition stub_models_dir :: path where
  "stub_models_dir = [''comfy'', ''models'']"

definition stub_fs :: filesystem where
  "stub_fs =
    [[''comfy'', ''models'', ''FILM'', ''Style'', ''saved_model.pb''],
     [''comfy'', ''models'', ''FILM'', ''L1'', ''saved_model'', ''saved_model.pb'']]"

definition bare_fs :: filesystem where
  "bare_fs = [[''comfy'', ''models'', ''FILM'']]"

text \<open>A constructor of the library that returns the path it is given as the handle.\<close>

definition stub_Interpolator :: "string \<Rightarrow> unit + string" where
  "stub_Interpolator p = Inr p"

section \<open>Properties\<close>

subsection \<open>Traces\<close>

lemma progress_append: "progress (tr @ tr') = progress tr + progress tr'"
  by (induction tr rule: progress.induct) simp_all

lemma pulled_append: "pulled (tr @ tr') = pulled tr @ pulled tr'"
  by (induction tr rule: pulled.induct) simp_all

lemma progress_iterations: "progress (concat (map iteration fs)) = length fs"
  by (induction fs) (simp_all add: iteration_def)

lemma pulled_iterations: "pulled (concat (map iteration fs)) = fs"
  by (induction fs) (simp_all add: iteration_def)

lemma progress_preamble: "progress (preamble h images d m) = 0"
  by (simp add: preamble_def)

lemma pulled_preamble: "pulled (preamble h images d m) = []"
  by (simp add: preamble_def)

lemma progress_epilogue: "progress (epilogue out) = 0"
  by (simp add: epilogue_def)

lemma pulled_epilogue: "pulled (epilogue out) = []"
  by (simp add: epilogue_def)

subsection \<open>The loop\<close>

text \<open>With no interrupt at any check, the loop consumes the whole generator.\<close>

lemma for_frames_all:
  "\<forall>j < length (yields g). \<not> intr (k + j) \<Longrightarrow>
   for_frames intr k g out =
     (concat (map iteration (yields g)),
      case raises g of None \<Rightarrow> Inr (out @ map to_tensor (yields g))
                     | Some e \<Rightarrow> Inl (DelegateError e))"
proof (induction g arbitrary: k out)
  case Stop
  then show ?case by simp
next
  case (Raise e)
  then show ?case by simp
next
  case (Yield f g)
  from Yield.prems have here: "\<not> intr k" by fastforce
  from Yield.prems have "\<forall>j < length (yields g). \<not> intr (Suc k + j)" by fastforce
  from Yield.IH [OF this] here show ?case
    by (simp add: iteration_def split: option.splits)
qed

text \<open>The first check that finds the flag set ends the loop, after \<open>j\<close> full passes.\<close>

lemma for_frames_interrupted:
  "j < length (yields g) \<Longrightarrow> intr (k + j) \<Longrightarrow> \<forall>i < j. \<not> intr (k + i) \<Longrightarrow>
   for_frames intr k g out =
     (concat (map iteration (take j (yields g))) @ interrupted_iteration (yields g ! j),
      Inl InterruptProcessingException)"
proof (induction g arbitrary: j k out)
  case Stop
  then show ?case by simp
next
  case (Raise e)
  then show ?case by simp
next
  case (Yield f g)
  show ?case
  proof (cases j)
    case 0
    with Yield.prems show ?thesis by (simp add: interrupted_iteration_def)
  next
    case (Suc j')
    with Yield.prems have here: "\<not> intr k" by fastforce
    from Suc Yield.prems have a: "j' < length (yields g)" by simp
    from Suc Yield.prems have b: "intr (Suc k + j')" by simp
    from Suc Yield.prems have c: "\<forall>i < j'. \<not> intr (Suc k + i)" by fastforce
    from Yield.IH [OF a b c] here Suc show ?thesis
      by (simp add: iteration_def)
  qed
qed

lemma first_interrupt:
  assumes "j < L" "intr (j::nat)"
  obtains j0 where "j0 < L" "intr j0" "\<forall>i < j0. \<not> intr i"
proof -
  let ?j0 = "LEAST i. intr i"
  have 1: "intr ?j0" using assms(2) by (rule LeastI)
  have 2: "?j0 \<le> j" using assms(2) by (rule Least_le)
  have 3: "\<forall>i < ?j0. \<not> intr i" using not_less_Least by blast
  from 1 2 3 assms(1) that show thesis by (meson le_less_trans)
qed

subsection \<open>Building the batch\<close>

lemma sum_list_unsqueeze: "sum_list (map (\<lambda>u. hd (shape u)) (map unsqueeze0 ts)) = length ts"
  by (induction ts) (simp_all add: unsqueeze0_def)

lemma cat0_unsqueeze:
  "cat0 (map unsqueeze0 ts) =
     (if ts \<noteq> [] \<and> (\<forall>u \<in> set ts. shape u = shape (hd ts))
      then Inr (batch_of (shape (hd ts)) ts) else (Inl RuntimeError :: 'e error + 'a tensor))"
proof (cases ts)
  case Nil
  then show ?thesis by (simp add: cat0_def)
next
  case (Cons t ts')
  have d: "map dat (map unsqueeze0 ts) = map dat ts"
    by (induction ts) (simp_all add: unsqueeze0_def)
  have s: "sum_list (map (\<lambda>u. hd (shape u)) (map unsqueeze0 ts)) = length ts"
    by (rule sum_list_unsqueeze)
  have a: "list_all (\<lambda>u. shape u \<noteq> [] \<and> tl (shape u) = tl (shape (unsqueeze0 t))) (map unsqueeze0 ts)
           \<longleftrightarrow> (\<forall>u \<in> set ts. shape u = shape t)"
    by (simp add: list_all_iff unsqueeze0_def)
  have "cat0 (map unsqueeze0 ts) =
      (if \<forall>u \<in> set ts. shape u = shape t
       then Inr \<lparr>shape = length ts # shape t, dat = concat (map dat ts)\<rparr>
       else (Inl RuntimeError :: 'e error + 'a tensor))"
    unfolding cat0_def using a d s Cons by (simp add: unsqueeze0_def del: map_map)
  with Cons show ?thesis by (simp add: batch_of_def)
qed

text \<open>Frames of one shape are stacked; an empty list or two shapes make \<open>torch.cat\<close> fail.\<close>

lemma cat0_same_shape:
  assumes "ts \<noteq> []" "\<forall>u \<in> set ts. shape u = sh"
  shows "cat0 (map unsqueeze0 ts) = (Inr (batch_of sh ts) :: 'e error + 'a tensor)"
proof -
  from assms have h: "shape (hd ts) = sh" by (cases ts) simp_all
  with assms have "ts \<noteq> [] \<and> (\<forall>u \<in> set ts. shape u = shape (hd ts))" by simp
  then have "cat0 (map unsqueeze0 ts) = (Inr (batch_of (shape (hd ts)) ts) :: 'e error + 'a tensor)"
    unfolding cat0_unsqueeze by (rule if_P)
  with h show ?thesis by simp
qed

lemma cat0_fails:
  assumes "\<not> (ts \<noteq> [] \<and> (\<exists>sh. \<forall>u \<in> set ts. shape u = sh))"
  shows "cat0 (map unsqueeze0 ts) = (Inl RuntimeError :: 'e error + 'a tensor)"
proof -
  from assms have "\<not> (ts \<noteq> [] \<and> (\<forall>u \<in> set ts. shape u = shape (hd ts)))" by blast
  then show ?thesis unfolding cat0_unsqueeze by (rule if_not_P)
qed

lemma chunk_concat:
  "\<forall>xs \<in> set xss. length xs = m \<Longrightarrow> i < length xss \<Longrightarrow>
   take m (drop (i * m) (concat xss)) = xss ! i"
proof (induction xss arbitrary: i)
  case Nil
  then show ?case by simp
next
  case (Cons xs xss)
  show ?case
  proof (cases i)
    case 0
    with Cons.prems show ?thesis by simp
  next
    case (Suc i')
    with Cons.prems Cons.IH [of i'] show ?thesis by simp
  qed
qed

text \<open>The \<open>i\<close>-th slice of a stacked batch is the \<open>i\<close>-th frame.\<close>

lemma index0_batch_of:
  assumes "\<forall>t \<in> set ts. shape t = sh \<and> well_formed t" "i < length ts"
  shows "index0 (batch_of sh ts) i = ts ! i"
proof -
  have "take (prod_list sh) (drop (i * prod_list sh) (concat (map dat ts))) = map dat ts ! i"
    using assms by (intro chunk_concat) (auto simp: well_formed_def)
  with assms show ?thesis by (simp add: index0_def batch_of_def)
qed

subsection \<open>The cases of a run\<close>

lemma do_interpolation_empty:
  "shape images = 0 # s \<Longrightarrow> do_interpolation h images d m = ([], Inr images)"
  by (simp add: do_interpolation_def size0_def)

lemma do_interpolation_loop:
  assumes "shape images = n # s" "0 < n"
  shows "do_interpolation h images d m =
    (case for_frames (processing_interrupted h) 0 (delegate_gen h images d m) [] of
       (tr, Inl e) \<Rightarrow> (preamble h images d m @ tr, Inl e)
     | (tr, Inr out_tensors) \<Rightarrow>
         (case cat0 (map unsqueeze0 out_tensors) of
            Inl e \<Rightarrow> (preamble h images d m @ tr, Inl e)
          | Inr out \<Rightarrow> (preamble h images d m @ tr @ epilogue out, Inr out)))"
  using assms
  by (simp add: do_interpolation_def size0_def delegate_gen_def preamble_def epilogue_def Let_def
      split: prod.splits sum.splits)

lemma do_interpolation_interrupted:
  fixes h :: "('a, 'm, 'e) host"
  assumes "shape images = n # s" "0 < n"
    and "j < length (yields (delegate_gen h images d m))"
    and "processing_interrupted h j" "\<forall>i < j. \<not> processing_interrupted h i"
  shows "do_interpolation h images d m =
    (preamble h images d m @
       concat (map iteration (take j (yields (delegate_gen h images d m)))) @
       interrupted_iteration (yields (delegate_gen h images d m) ! j),
     Inl InterruptProcessingException)"
proof -
  have "(for_frames (processing_interrupted h) 0 (delegate_gen h images d m) []
          :: ('a, 'm) run_call event list \<times> ('e error + 'a tensor list)) =
     (concat (map iteration (take j (yields (delegate_gen h images d m)))) @
        interrupted_iteration (yields (delegate_gen h images d m) ! j),
      Inl InterruptProcessingException)"
    using assms(3-5) by (intro for_frames_interrupted) simp_all
  then show ?thesis
    by (simp add: do_interpolation_loop [OF assms(1,2)])
qed

lemma do_interpolation_delegate_error:
  fixes h :: "('a, 'm, 'e) host"
  assumes "shape images = n # s" "0 < n"
    and "\<forall>j < length (yields (delegate_gen h images d m)). \<not> processing_interrupted h j"
    and "raises (delegate_gen h images d m) = Some e"
  shows "do_interpolation h images d m =
    (preamble h images d m @ concat (map iteration (yields (delegate_gen h images d m))),
     Inl (DelegateError e))"
proof -
  have "(for_frames (processing_interrupted h) 0 (delegate_gen h images d m) []
          :: ('a, 'm) run_call event list \<times> ('e error + 'a tensor list)) =
     (concat (map iteration (yields (delegate_gen h images d m))), Inl (DelegateError e))"
    using assms(3,4) for_frames_all [of "delegate_gen h images d m" "processing_interrupted h" 0 "[]"]
    by simp
  then show ?thesis
    by (simp add: do_interpolation_loop [OF assms(1,2)])
qed

lemma for_frames_exhausted:
  fixes h :: "('a, 'm, 'e) host"
  assumes "\<forall>j < length (yields (delegate_gen h images d m)). \<not> processing_interrupted h j"
    and "raises (delegate_gen h images d m) = None"
  shows "(for_frames (processing_interrupted h) 0 (delegate_gen h images d m) []
          :: ('a, 'm) run_call event list \<times> ('e error + 'a tensor list)) =
     (concat (map iteration (yields (delegate_gen h images d m))),
      Inr (map to_tensor (yields (delegate_gen h images d m))))"
  using assms for_frames_all [of "delegate_gen h images d m" "processing_interrupted h" 0 "[]"]
  by simp

lemma do_interpolation_returns:
  fixes h :: "('a, 'm, 'e) host"
  assumes "shape images = n # s" "0 < n"
    and "\<forall>j < length (yields (delegate_gen h images d m)). \<not> processing_interrupted h j"
    and "raises (delegate_gen h images d m) = None"
    and "yields (delegate_gen h images d m) \<noteq> []"
    and "\<forall>f \<in> set (yields (delegate_gen h images d m)). shape (to_tensor f) = sh"
  shows "do_interpolation h images d m =
    (preamble h images d m @ concat (map iteration (yields (delegate_gen h images d m)))
       @ epilogue (batch_of sh (map to_tensor (yields (delegate_gen h images d m)))),
     Inr (batch_of sh (map to_tensor (yields (delegate_gen h images d m)))))"
proof -
  let ?ts = "map to_tensor (yields (delegate_gen h images d m))"
  from assms(5) have ne: "?ts \<noteq> []" by simp
  from assms(6) have sh: "\<forall>u \<in> set ?ts. shape u = sh" by simp
  have "cat0 (map unsqueeze0 ?ts) = (Inr (batch_of sh ?ts) :: 'e error + 'a tensor)"
    using ne sh by (rule cat0_same_shape)
  with for_frames_exhausted [OF assms(3,4)] show ?thesis
    unfolding do_interpolation_loop [OF assms(1,2)] by simp
qed

lemma do_interpolation_cat_fails:
  fixes h :: "('a, 'm, 'e) host"
  assumes "shape images = n # s" "0 < n"
    and "\<forall>j < length (yields (delegate_gen h images d m)). \<not> processing_interrupted h j"
    and "raises (delegate_gen h images d m) = None"
    and "\<not> (yields (delegate_gen h images d m) \<noteq> [] \<and>
         (\<exists>sh. \<forall>f \<in> set (yields (delegate_gen h images d m)). shape (to_tensor f) = sh))"
  shows "do_interpolation h images d m =
    (preamble h images d m @ concat (map iteration (yields (delegate_gen h images d m))),
     Inl RuntimeError)"
proof -
  let ?ts = "map to_tensor (yields (delegate_gen h images d m))"
  from assms(5) have "\<not> (?ts \<noteq> [] \<and> (\<exists>sh. \<forall>u \<in> set ?ts. shape u = sh))" by simp
  then have "cat0 (map unsqueeze0 ?ts) = (Inl RuntimeError :: 'e error + 'a tensor)"
    by (rule cat0_fails)
  with for_frames_exhausted [OF assms(3,4)] show ?thesis
    unfolding do_interpolation_loop [OF assms(1,2)] by simp
qed

text \<open>A normal return on a non-empty batch: what it takes and what it gives.\<close>

lemma do_interpolation_Inr:
  fixes h :: "('a, 'm, 'e) host"
  assumes "shape images = n # s" "0 < n"
    and "snd (do_interpolation h images d m) = Inr out"
  shows "\<exists>sh. (\<forall>j < length (yields (delegate_gen h images d m)). \<not> processing_interrupted h j)
    \<and> raises (delegate_gen h images d m) = None
    \<and> yields (delegate_gen h images d m) \<noteq> []
    \<and> (\<forall>f \<in> set (yields (delegate_gen h images d m)). shape (to_tensor f) = sh)
    \<and> out = batch_of sh (map to_tensor (yields (delegate_gen h images d m)))
    \<and> fst (do_interpolation h images d m) =
        preamble h images d m @ concat (map iteration (yields (delegate_gen h images d m)))
          @ epilogue out"
proof -
  let ?g = "delegate_gen h images d m"
  let ?ts = "map to_tensor (yields ?g)"
  have no: "\<forall>j < length (yields ?g). \<not> processing_interrupted h j"
  proof (rule ccontr)
    assume "\<not> ?thesis"
    then obtain j where "j < length (yields ?g)" "processing_interrupted h j" by blast
    then obtain j0 where "j0 < length (yields ?g)" "processing_interrupted h j0"
      "\<forall>i < j0. \<not> processing_interrupted h i" by (rule first_interrupt)
    from do_interpolation_interrupted [OF assms(1,2) this] assms(3) show False by simp
  qed
  have r: "raises ?g = None"
  proof (cases "raises ?g")
    case None
    then show ?thesis .
  next
    case (Some e)
    from do_interpolation_delegate_error [OF assms(1,2) no Some] assms(3) show ?thesis by simp
  qed
  have ok: "yields ?g \<noteq> [] \<and> (\<exists>sh. \<forall>f \<in> set (yields ?g). shape (to_tensor f) = sh)"
  proof (rule ccontr)
    assume "\<not> ?thesis"
    from do_interpolation_cat_fails [OF assms(1,2) no r this] assms(3) show False by simp
  qed
  then obtain sh where ne: "yields ?g \<noteq> []"
    and sh: "\<forall>f \<in> set (yields ?g). shape (to_tensor f) = sh"
    by blast
  note eq = do_interpolation_returns [OF assms(1,2) no r ne sh]
  from eq assms(3) have out: "out = batch_of sh ?ts" by simp
  from eq out have tr: "fst (do_interpolation h images d m) =
      preamble h images d m @ concat (map iteration (yields ?g)) @ epilogue out" by simp
  from no r ne sh out tr show ?thesis by blast
qed

subsection \<open>The stub runs\<close>

lemma stub_yields: "yields (delegate_gen stub_host stub_images 1 ()) = [frame_a, frame_b]"
  by (simp add: delegate_gen_def stub_host_def stub_gen_def)

lemma cancelling_yields: "yields (delegate_gen cancelling_host stub_images 1 ()) = [frame_a, frame_b]"
  by (simp add: delegate_gen_def cancelling_host_def stub_host_def stub_gen_def)

lemma stub_raises: "raises (delegate_gen stub_host stub_images 1 ()) = None"
  by (simp add: delegate_gen_def stub_host_def stub_gen_def)

lemma stub_loop:
  "for_frames (processing_interrupted stub_host) 0 (delegate_gen stub_host stub_images 1 ()) [] =
    (iteration frame_a @ iteration frame_b, Inr [to_tensor frame_a, to_tensor frame_b])"
  by (simp add: delegate_gen_def stub_host_def stub_gen_def iteration_def)

lemma stub_run:
  "do_interpolation stub_host stub_images 1 () =
    (preamble stub_host stub_images 1 () @ iteration frame_a @ iteration frame_b
       @ epilogue \<lparr>shape = [2, 1, 1, 3], dat = [1, 2, 3, 4, 5, 6]\<rparr>,
     Inr \<lparr>shape = [2, 1, 1, 3], dat = [1, 2, 3, 4, 5, 6]\<rparr>)"
proof -
  have s: "shape stub_images = 3 # [1, 1, 3]" by (simp add: stub_images_def)
  have c: "cat0 (map unsqueeze0 [to_tensor frame_a, to_tensor frame_b]) =
      (Inr \<lparr>shape = [2, 1, 1, 3], dat = [1, 2, 3, 4, 5, 6]\<rparr> :: unit error + nat tensor)"
    by (simp add: cat0_def unsqueeze0_def to_tensor_def frame_a_def frame_b_def from_numpy_def)
  show ?thesis
    unfolding do_interpolation_loop [OF s, simplified] stub_loop using c by simp
qed

lemma cancelling_run:
  "do_interpolation cancelling_host stub_images 1 () =
    (preamble cancelling_host stub_images 1 () @ iteration frame_a @ interrupted_iteration frame_b,
     Inl InterruptProcessingException)"
proof -
  have s: "shape stub_images = 3 # [1, 1, 3]" by (simp add: stub_images_def)
  have l: "for_frames (processing_interrupted cancelling_host) 0
             (delegate_gen cancelling_host stub_images 1 ()) [] =
      (iteration frame_a @ interrupted_iteration frame_b,
       (Inl InterruptProcessingException :: unit error + nat tensor list))"
    by (simp add: delegate_gen_def cancelling_host_def stub_host_def stub_gen_def iteration_def
        interrupted_iteration_def)
  show ?thesis
    unfolding do_interpolation_loop [OF s, simplified] l by simp
qed

section \<open>The claims about \<open>do_interpolation\<close>\<close>

text \<open>
  C3. On an empty batch (first dimension 0) \<open>do_interpolation\<close> returns the batch it was
  given, and its trace is empty: the library is not called, no frame is pulled and the
  progress bar is neither created nor updated.
\<close>

theorem C3_empty_batch_unchanged:
  fixes h :: "('a, 'm, 'e) host"
  assumes "shape images = 0 # s"
  shows "do_interpolation h images d m = ([], Inr images)"
  using assms by (rule do_interpolation_empty)

theorem C3_empty_batch_unchanged_witness:
  "shape empty_images = 0 # [1, 1, 3] \<and>
   do_interpolation stub_host empty_images 2 () = ([], Inr empty_images)"
proof -
  have s: "shape empty_images = 0 # [1, 1, 3]" by (simp add: empty_images_def)
  from C3_empty_batch_unchanged [OF s, of stub_host 2 "()"] s show ?thesis by simp
qed

text \<open>
  C4. On a non-empty batch, if the interrupt flag is found set at the check that follows
  the \<open>k\<close>-th frame the library yields, \<open>do_interpolation\<close> ends with
  \<open>InterruptProcessingException\<close>: the result is the error and no batch, whatever had been
  accumulated.
\<close>

theorem C4_cancellation_returns_no_batch:
  fixes h :: "('a, 'm, 'e) host"
  assumes "shape images = n # s" "0 < n"
    and "1 \<le> k" "k \<le> length (yields (delegate_gen h images d m))"
    and "processing_interrupted h (k - 1)"
  shows "snd (do_interpolation h images d m) = Inl InterruptProcessingException"
proof -
  from assms(3,4) have "k - 1 < length (yields (delegate_gen h images d m))" by simp
  from this assms(5) obtain j0 where "j0 < length (yields (delegate_gen h images d m))"
    "processing_interrupted h j0" "\<forall>i < j0. \<not> processing_interrupted h i"
    by (rule first_interrupt)
  from do_interpolation_interrupted [OF assms(1,2) this] show ?thesis by simp
qed

theorem C4_cancellation_returns_no_batch_witness:
  "shape stub_images = 3 # [1, 1, 3] \<and> (0::nat) < 3 \<and> (1::nat) \<le> 2 \<and>
   2 \<le> length (yields (delegate_gen cancelling_host stub_images 1 ())) \<and>
   processing_interrupted cancelling_host (2 - 1) \<and>
   snd (do_interpolation cancelling_host stub_images 1 ()) = Inl InterruptProcessingException"
proof -
  have s: "shape stub_images = 3 # [1, 1, 3]" by (simp add: stub_images_def)
  have n: "(0::nat) < 3" by simp
  have k: "(1::nat) \<le> 2" by simp
  have l: "2 \<le> length (yields (delegate_gen cancelling_host stub_images 1 ()))"
    unfolding cancelling_yields by simp
  have i: "processing_interrupted cancelling_host (2 - 1)"
    by (simp add: cancelling_host_def)
  from C4_cancellation_returns_no_batch [OF s n k l i] s n k l i show ?thesis by simp
qed

text \<open>
  C8. If the interrupt flag is first found set at the check after the \<open>k\<close>-th frame, the
  trace is the preamble, \<open>k - 1\<close> full passes (frame, check, update) and a last pass that
  stops after the check: the progress bar has been updated \<open>k - 1\<close> times, and the
  \<open>k\<close>-th frame, though pulled, is not counted.
\<close>

theorem C8_cancelled_frame_not_counted:
  fixes h :: "('a, 'm, 'e) host"
  assumes "shape images = n # s" "0 < n"
    and "1 \<le> k" "k \<le> length (yields (delegate_gen h images d m))"
    and "processing_interrupted h (k - 1)" "\<forall>j < k - 1. \<not> processing_interrupted h j"
  shows "snd (do_interpolation h images d m) = Inl InterruptProcessingException \<and>
    fst (do_interpolation h images d m) =
      preamble h images d m @
      concat (map iteration (take (k - 1) (yields (delegate_gen h images d m)))) @
      [Call (Yielded (yields (delegate_gen h images d m) ! (k - 1))), Call ThrowIfInterrupted] \<and>
    progress (fst (do_interpolation h images d m)) = k - 1 \<and>
    pulled (fst (do_interpolation h images d m)) = take k (yields (delegate_gen h images d m))"
proof -
  let ?ys = "yields (delegate_gen h images d m)"
  from assms(3,4) have lt: "k - 1 < length ?ys" by simp
  note run = do_interpolation_interrupted [OF assms(1,2) lt assms(5,6)]
  have len: "length (take (k - 1) ?ys) = k - 1" using lt by simp
  have p: "progress (fst (do_interpolation h images d m)) = k - 1"
    unfolding run fst_conv progress_append progress_preamble progress_iterations len
    by (simp add: interrupted_iteration_def)
  have "take (k - 1) ?ys @ [?ys ! (k - 1)] = take (Suc (k - 1)) ?ys"
    using lt by (simp add: take_Suc_conv_app_nth)
  with assms(3) have t: "take (k - 1) ?ys @ [?ys ! (k - 1)] = take k ?ys" by simp
  have q: "pulled (fst (do_interpolation h images d m)) = take k ?ys"
    unfolding run fst_conv pulled_append pulled_preamble pulled_iterations
    using t by (simp add: interrupted_iteration_def)
  from run p q show ?thesis by (simp add: interrupted_iteration_def)
qed

theorem C8_cancelled_frame_not_counted_witness:
  "shape stub_images = 3 # [1, 1, 3] \<and> (0::nat) < 3 \<and> (1::nat) \<le> 2 \<and>
   2 \<le> length (yields (delegate_gen cancelling_host stub_images 1 ())) \<and>
   processing_interrupted cancelling_host (2 - 1) \<and>
   \<not> processing_interrupted cancelling_host 0 \<and>
   progress (fst (do_interpolation cancelling_host stub_images 1 ())) = 2 - 1"
proof -
  have s: "shape stub_images = 3 # [1, 1, 3]" by (simp add: stub_images_def)
  have n: "(0::nat) < 3" by simp
  have k: "(1::nat) \<le> 2" by simp
  have l: "2 \<le> length (yields (delegate_gen cancelling_host stub_images 1 ()))"
    unfolding cancelling_yields by simp
  have i: "processing_interrupted cancelling_host (2 - 1)"
    by (simp add: cancelling_host_def)
  have z: "\<not> processing_interrupted cancelling_host 0"
    by (simp add: cancelling_host_def)
  then have f: "\<forall>j < 2 - 1. \<not> processing_interrupted cancelling_host j" by simp
  from C8_cancelled_frame_not_counted [OF s n k l i f]
  have p: "progress (fst (do_interpolation cancelling_host stub_images 1 ())) = 2 - 1"
    by (elim conjE)
  from s n k l i z p show ?thesis by (intro conjI)
qed

lemma size0_batch_of: "(size0 (batch_of sh ts) :: 'e error + nat) = Inr (length ts)"
  by (simp add: size0_def batch_of_def)

lemma dat_batch_of_frames:
  "dat (batch_of sh (map to_tensor fs)) = concat (map (\<lambda>f. dat (to_tensor f)) fs)"
  by (simp add: batch_of_def comp_def)

lemma depth_frames_positive:
  assumes "2 \<le> (n::nat)" "1 \<le> (d::nat)"
  shows "0 < (n - 1) * (2 ^ d - 1)"
proof -
  from assms(2) have "(2::nat) ^ 1 \<le> 2 ^ d" by (intro power_increasing) simp_all
  then have "0 < (2::nat) ^ d - 1" by simp
  moreover from assms(1) have "0 < n - 1" by simp
  ultimately show ?thesis by simp
qed

text \<open>
  C2. For a batch of \<open>n \<ge> 2\<close> frames and a depth \<open>d\<close> between 1 and 50, when the
  library yields \<open>(n - 1) * (2 ^ d - 1)\<close> frames in all (\<open>2 ^ d - 1\<close> for each adjacent
  pair), every batch \<open>do_interpolation\<close> returns has exactly that length and holds the
  yielded frames' elements and nothing else: the input frames are not put back in. The
  run does return a batch exactly when no interrupt check finds the flag set, the library
  does not raise and the frames have one shape.
\<close>

theorem C2_output_length:
  fixes h :: "('a, 'm, 'e) host"
  assumes "shape images = n # s" "2 \<le> n" "1 \<le> d" "d \<le> 50"
    and "length (yields (delegate_gen h images d m)) = (n - 1) * (2 ^ d - 1)"
  shows "(\<forall>out. snd (do_interpolation h images d m) = Inr out \<longrightarrow>
            (size0 out :: 'e error + nat) = Inr ((n - 1) * (2 ^ d - 1)) \<and>
            dat out = concat (map (\<lambda>f. dat (to_tensor f)) (yields (delegate_gen h images d m))))
     \<and> ((\<exists>out. snd (do_interpolation h images d m) = Inr out) \<longleftrightarrow>
            (\<forall>j < (n - 1) * (2 ^ d - 1). \<not> processing_interrupted h j) \<and>
            raises (delegate_gen h images d m) = None \<and>
            (\<exists>sh. \<forall>f \<in> set (yields (delegate_gen h images d m)). shape (to_tensor f) = sh))"
proof -
  let ?ys = "yields (delegate_gen h images d m)"
  let ?r = "do_interpolation h images d m"
  from assms(2) have n: "0 < n" by simp
  from depth_frames_positive [OF assms(2,3)] assms(5) have ne: "?ys \<noteq> []" by auto
  have a: "(size0 out :: 'e error + nat) = Inr ((n - 1) * (2 ^ d - 1)) \<and>
           dat out = concat (map (\<lambda>f. dat (to_tensor f)) ?ys)"
    if "snd ?r = Inr out" for out
  proof -
    from do_interpolation_Inr [OF assms(1) n that]
    obtain sh where "out = batch_of sh (map to_tensor ?ys)" by blast
    with assms(5) show ?thesis by (simp add: size0_batch_of dat_batch_of_frames)
  qed
  have b: "(\<forall>j < (n - 1) * (2 ^ d - 1). \<not> processing_interrupted h j) \<and> raises (delegate_gen h images d m) = None \<and>
           (\<exists>sh. \<forall>f \<in> set ?ys. shape (to_tensor f) = sh)"
    if "snd ?r = Inr out" for out
    using do_interpolation_Inr [OF assms(1) n that] assms(5) by metis
  have c: "\<exists>out. snd ?r = Inr out"
    if "\<forall>j < (n - 1) * (2 ^ d - 1). \<not> processing_interrupted h j"
      and "raises (delegate_gen h images d m) = None"
      and "\<forall>f \<in> set ?ys. shape (to_tensor f) = sh" for sh
  proof -
    from that(1) assms(5) have "\<forall>j < length ?ys. \<not> processing_interrupted h j" by simp
    from do_interpolation_returns [OF assms(1) n this that(2) ne that(3)] show ?thesis by simp
  qed
  from a b c show ?thesis by blast
qed

theorem C2_output_length_witness:
  "shape stub_images = 3 # [1, 1, 3] \<and> (2::nat) \<le> 3 \<and> (1::nat) \<le> 1 \<and> (1::nat) \<le> 50 \<and>
   length (yields (delegate_gen stub_host stub_images 1 ())) = (3 - 1) * (2 ^ 1 - 1) \<and>
   snd (do_interpolation stub_host stub_images 1 ()) = Inr \<lparr>shape = [2, 1, 1, 3], dat = [1, 2, 3, 4, 5, 6]\<rparr> \<and>
   (size0 \<lparr>shape = [2, 1, 1, 3], dat = [1, 2, 3, 4, 5, 6 :: nat]\<rparr> :: unit error + nat) =
     Inr ((3 - 1) * (2 ^ 1 - 1))"
proof -
  have s: "shape stub_images = 3 # [1, 1, 3]" by (simp add: stub_images_def)
  have n: "(2::nat) \<le> 3" by simp
  have d1: "(1::nat) \<le> 1" by simp
  have d2: "(1::nat) \<le> 50" by simp
  have l: "length (yields (delegate_gen stub_host stub_images 1 ())) = (3 - 1) * (2 ^ 1 - 1)"
    unfolding stub_yields by simp
  have r: "snd (do_interpolation stub_host stub_images 1 ()) =
      Inr \<lparr>shape = [2, 1, 1, 3], dat = [1, 2, 3, 4, 5, 6]\<rparr>"
    unfolding stub_run by simp
  from C2_output_length [OF s n d1 d2 l] r
  have z: "(size0 \<lparr>shape = [2, 1, 1, 3], dat = [1, 2, 3, 4, 5, 6 :: nat]\<rparr> :: unit error + nat) =
     Inr ((3 - 1) * (2 ^ 1 - 1))" by blast
  from s n d1 d2 l r z show ?thesis by (intro conjI)
qed

text \<open>
  C6. Whenever \<open>do_interpolation\<close> returns a batch, the batch has one element for each
  frame pulled from the library, and its \<open>i\<close>-th element is the \<open>i\<close>-th pulled frame,
  turned into a tensor when it was an array; on a non-empty input the pulled frames are
  all the frames the library yields, in its order.
\<close>

theorem C6_output_in_yield_order:
  fixes h :: "('a, 'm, 'e) host"
  assumes "snd (do_interpolation h images d m) = Inr out"
    and "\<forall>f \<in> set (pulled (fst (do_interpolation h images d m))). well_formed (to_tensor f)"
  shows "(size0 out :: 'e error + nat) = Inr (length (pulled (fst (do_interpolation h images d m))))
    \<and> (\<forall>i < length (pulled (fst (do_interpolation h images d m))).
          index0 out i = to_tensor (pulled (fst (do_interpolation h images d m)) ! i))
    \<and> pulled (fst (do_interpolation h images d m)) =
        (if hd (shape images) = 0 then [] else yields (delegate_gen h images d m))"
proof (cases "shape images")
  case Nil
  then have "snd (do_interpolation h images d m) = Inl IndexError"
    by (simp add: do_interpolation_def size0_def)
  with assms(1) show ?thesis by simp
next
  case (Cons n s)
  show ?thesis
  proof (cases "n = 0")
    case True
    with Cons have e: "do_interpolation h images d m = ([], Inr images)"
      by (simp add: do_interpolation_empty)
    with assms(1) have "out = images" by simp
    with e Cons True show ?thesis by (simp add: size0_def)
  next
    case False
    then have n: "0 < n" by simp
    let ?ys = "yields (delegate_gen h images d m)"
    from do_interpolation_Inr [OF Cons n assms(1)]
    obtain sh where sh: "\<forall>f \<in> set ?ys. shape (to_tensor f) = sh"
      and out: "out = batch_of sh (map to_tensor ?ys)"
      and tr: "fst (do_interpolation h images d m) =
        preamble h images d m @ concat (map iteration ?ys) @ epilogue out"
      by blast
    have p: "pulled (fst (do_interpolation h images d m)) = ?ys"
      unfolding tr pulled_append pulled_preamble pulled_iterations pulled_epilogue by simp
    from assms(2) p sh have wf: "\<forall>t \<in> set (map to_tensor ?ys). shape t = sh \<and> well_formed t"
      by simp
    have i: "index0 out i = to_tensor (?ys ! i)" if "i < length ?ys" for i
    proof -
      from that have "i < length (map to_tensor ?ys)" by simp
      from index0_batch_of [OF wf this] that out show ?thesis by simp
    qed
    from p i out Cons False show ?thesis by (simp add: size0_batch_of)
  qed
qed

theorem C6_output_in_yield_order_witness:
  "snd (do_interpolation stub_host stub_images 1 ()) =
     Inr \<lparr>shape = [2, 1, 1, 3], dat = [1, 2, 3, 4, 5, 6]\<rparr> \<and>
   pulled (fst (do_interpolation stub_host stub_images 1 ())) = [frame_a, frame_b] \<and>
   well_formed (to_tensor frame_a) \<and> well_formed (to_tensor frame_b) \<and>
   index0 \<lparr>shape = [2, 1, 1, 3], dat = [1, 2, 3, 4, 5, 6 :: nat]\<rparr> 0 = to_tensor frame_a \<and>
   index0 \<lparr>shape = [2, 1, 1, 3], dat = [1, 2, 3, 4, 5, 6 :: nat]\<rparr> 1 = to_tensor frame_b"
proof -
  have r: "snd (do_interpolation stub_host stub_images 1 ()) =
      Inr \<lparr>shape = [2, 1, 1, 3], dat = [1, 2, 3, 4, 5, 6]\<rparr>"
    unfolding stub_run by simp
  have p: "pulled (fst (do_interpolation stub_host stub_images 1 ())) = [frame_a, frame_b]"
    unfolding stub_run fst_conv pulled_append pulled_preamble pulled_epilogue
    by (simp add: iteration_def)
  have wa: "well_formed (to_tensor frame_a)"
    by (simp add: well_formed_def to_tensor_def frame_a_def from_numpy_def)
  have wb: "well_formed (to_tensor frame_b)"
    by (simp add: well_formed_def to_tensor_def frame_b_def)
  have w: "\<forall>f \<in> set (pulled (fst (do_interpolation stub_host stub_images 1 ()))).
             well_formed (to_tensor f)"
    unfolding p using wa wb by simp
  note th = C6_output_in_yield_order [OF r w, unfolded p]
  from th have al: "\<forall>i < length [frame_a, frame_b].
      index0 \<lparr>shape = [2, 1, 1, 3], dat = [1, 2, 3, 4, 5, 6 :: nat]\<rparr> i =
        to_tensor ([frame_a, frame_b] ! i)"
    by (elim conjE)
  from al have "0 < length [frame_a, frame_b] \<longrightarrow>
     index0 \<lparr>shape = [2, 1, 1, 3], dat = [1, 2, 3, 4, 5, 6 :: nat]\<rparr> 0 = to_tensor ([frame_a, frame_b] ! 0)"
    by blast
  then have a: "index0 \<lparr>shape = [2, 1, 1, 3], dat = [1, 2, 3, 4, 5, 6 :: nat]\<rparr> 0 = to_tensor frame_a"
    by simp
  from al have "1 < length [frame_a, frame_b] \<longrightarrow>
     index0 \<lparr>shape = [2, 1, 1, 3], dat = [1, 2, 3, 4, 5, 6 :: nat]\<rparr> 1 = to_tensor ([frame_a, frame_b] ! 1)"
    by blast
  then have b: "index0 \<lparr>shape = [2, 1, 1, 3], dat = [1, 2, 3, 4, 5, 6 :: nat]\<rparr> 1 = to_tensor frame_b"
    by simp
  from r p wa wb a b show ?thesis by (intro conjI)
qed

lemma run_trace_uninterrupted:
  fixes h :: "('a, 'm, 'e) host"
  assumes "shape images = n # s" "0 < n"
    and "\<forall>j < length (yields (delegate_gen h images d m)). \<not> processing_interrupted h j"
  shows "\<exists>rest. fst (do_interpolation h images d m) =
            preamble h images d m @ concat (map iteration (yields (delegate_gen h images d m))) @ rest
          \<and> progress rest = 0 \<and> pulled rest = []"
proof (cases "raises (delegate_gen h images d m)")
  case (Some e)
  from do_interpolation_delegate_error [OF assms Some]
  have "fst (do_interpolation h images d m) =
      preamble h images d m @ concat (map iteration (yields (delegate_gen h images d m))) @ []"
    by simp
  then show ?thesis by (intro exI [of _ "[]"]) simp
next
  case None
  show ?thesis
  proof (cases "yields (delegate_gen h images d m) \<noteq> [] \<and>
      (\<exists>sh. \<forall>f \<in> set (yields (delegate_gen h images d m)). shape (to_tensor f) = sh)")
    case True
    then obtain sh where ne: "yields (delegate_gen h images d m) \<noteq> []"
      and sh: "\<forall>f \<in> set (yields (delegate_gen h images d m)). shape (to_tensor f) = sh"
      by blast
    from do_interpolation_returns [OF assms None ne sh]
    have "fst (do_interpolation h images d m) =
        preamble h images d m @ concat (map iteration (yields (delegate_gen h images d m))) @
        epilogue (batch_of sh (map to_tensor (yields (delegate_gen h images d m))))"
      by simp
    then show ?thesis
      by (intro exI [of _ "epilogue (batch_of sh (map to_tensor (yields (delegate_gen h images d m))))"])
        (simp add: progress_epilogue pulled_epilogue)
  next
    case False
    from do_interpolation_cat_fails [OF assms None False]
    have "fst (do_interpolation h images d m) =
        preamble h images d m @ concat (map iteration (yields (delegate_gen h images d m))) @ []"
      by simp
    then show ?thesis by (intro exI [of _ "[]"]) simp
  qed
qed

text \<open>
  C5, amended. On a non-empty batch the progress bar is created with the total
  \<open>(n - 1) * (2 ^ d - 1)\<close> before any frame is pulled, and the trace then holds one full
  pass (frame, interrupt check, update by 1) for each of the first \<open>p\<close> frames the library
  yields, in its order, where \<open>p\<close> is the number of updates: either every yielded frame
  is counted, or the flag is found set at the check after frame \<open>p + 1\<close>, which is pulled
  but not counted. When the run returns a batch, the updates are as many as the frames
  the library yielded. (On an empty batch no progress bar is created.)
\<close>

theorem C5_progress_counts_checked_frames:
  fixes h :: "('a, 'm, 'e) host"
  assumes "shape images = n # s" "0 < n"
  shows "\<exists>p rest.
      fst (do_interpolation h images d m) =
        preamble h images d m @
        concat (map iteration (take p (yields (delegate_gen h images d m)))) @ rest
    \<and> preamble h images d m ! 3 = Call (NewProgressBar ((n - 1) * (2 ^ d - 1)))
    \<and> progress (preamble h images d m) = 0
    \<and> pulled (preamble h images d m) = []
    \<and> p \<le> length (yields (delegate_gen h images d m))
    \<and> (\<forall>j < p. \<not> processing_interrupted h j)
    \<and> (if p < length (yields (delegate_gen h images d m))
        then processing_interrupted h p \<and>
             rest = interrupted_iteration (yields (delegate_gen h images d m) ! p)
        else progress rest = 0 \<and> pulled rest = [])
    \<and> progress (fst (do_interpolation h images d m)) = p
    \<and> (\<forall>out. snd (do_interpolation h images d m) = Inr out \<longrightarrow>
          progress (fst (do_interpolation h images d m)) =
            length (yields (delegate_gen h images d m)))"
proof -
  let ?ys = "yields (delegate_gen h images d m)"
  let ?r = "do_interpolation h images d m"
  have bar: "preamble h images d m ! 3 = Call (NewProgressBar ((n - 1) * (2 ^ d - 1)))"
    using assms(1) by (simp add: preamble_def)
  show ?thesis
  proof (cases "\<forall>j < length ?ys. \<not> processing_interrupted h j")
    case True
    from run_trace_uninterrupted [OF assms True]
    obtain rest where tr: "fst ?r = preamble h images d m @ concat (map iteration ?ys) @ rest"
      and pr: "progress rest = 0" and pu: "pulled rest = []" by blast
    have p: "progress (fst ?r) = length ?ys"
      unfolding tr progress_append progress_preamble progress_iterations pr by simp
    from tr have tr': "fst ?r =
        preamble h images d m @ concat (map iteration (take (length ?ys) ?ys)) @ rest" by simp
    show ?thesis
      apply (rule exI [of _ "length ?ys"])
      apply (rule exI [of _ rest])
      using tr' bar True pr pu p by (simp add: progress_preamble pulled_preamble)
  next
    case False
    then obtain j where "j < length ?ys" "processing_interrupted h j" by blast
    then obtain p where lt: "p < length ?ys" and at: "processing_interrupted h p"
      and before: "\<forall>i < p. \<not> processing_interrupted h i" by (rule first_interrupt)
    note run = do_interpolation_interrupted [OF assms lt at before]
    from run have tr: "fst ?r = preamble h images d m @ concat (map iteration (take p ?ys)) @
        interrupted_iteration (?ys ! p)" by simp
    from run have res: "snd ?r = Inl InterruptProcessingException" by simp
    have len: "length (take p ?ys) = p" using lt by simp
    have p: "progress (fst ?r) = p"
      unfolding tr progress_append progress_preamble progress_iterations len
      by (simp add: interrupted_iteration_def)
    show ?thesis
      apply (rule exI [of _ p])
      apply (rule exI [of _ "interrupted_iteration (?ys ! p)"])
      using tr bar lt at before p res by (simp add: progress_preamble pulled_preamble)
  qed
qed

theorem C5_progress_counts_checked_frames_witness:
  "shape stub_images = 3 # [1, 1, 3] \<and> (0::nat) < 3 \<and>
   snd (do_interpolation stub_host stub_images 1 ()) =
     Inr \<lparr>shape = [2, 1, 1, 3], dat = [1, 2, 3, 4, 5, 6]\<rparr> \<and>
   preamble stub_host stub_images 1 () ! 3 = Call (NewProgressBar ((3 - 1) * (2 ^ 1 - 1))) \<and>
   progress (fst (do_interpolation stub_host stub_images 1 ())) =
     length (yields (delegate_gen stub_host stub_images 1 ()))"
proof -
  have s: "shape stub_images = 3 # [1, 1, 3]" by (simp add: stub_images_def)
  have n: "(0::nat) < 3" by simp
  have r: "snd (do_interpolation stub_host stub_images 1 ()) =
      Inr \<lparr>shape = [2, 1, 1, 3], dat = [1, 2, 3, 4, 5, 6]\<rparr>"
    unfolding stub_run by simp
  note th = C5_progress_counts_checked_frames [OF s n, where h = stub_host and d = 1 and m = "()"]
  from th have b: "preamble stub_host stub_images 1 () ! 3 =
      Call (NewProgressBar ((3 - 1) * (2 ^ 1 - 1)))" by blast
  from th r have p: "progress (fst (do_interpolation stub_host stub_images 1 ())) =
      length (yields (delegate_gen stub_host stub_images 1 ()))" by blast
  from s n r b p show ?thesis by (intro conjI)
qed

text \<open>
  The claim as first stated, one update for every yielded frame in every run, fails on
  the stub library when the flag is found set at the second check: two frames are
  pulled and the progress bar is updated once.
\<close>

theorem C5_counterexample:
  "pulled (fst (do_interpolation cancelling_host stub_images 1 ())) = [frame_a, frame_b] \<and>
   progress (fst (do_interpolation cancelling_host stub_images 1 ())) = 1"
  unfolding cancelling_run fst_conv pulled_append progress_append pulled_preamble progress_preamble
  by (simp add: iteration_def interrupted_iteration_def)

lemma preamble_without_gpu_log:
  "filter (\<lambda>e. \<not> is_gpu_log e) (preamble (h\<lparr>list_physical_devices := g\<rparr>) images d m) =
   filter (\<lambda>e. \<not> is_gpu_log e) (preamble h images d m)"
  by (simp add: preamble_def)

lemma do_interpolation_gpu:
  fixes h :: "('a, 'm, 'e) host"
  shows "snd (do_interpolation (h\<lparr>list_physical_devices := g\<rparr>) images d m) =
           snd (do_interpolation h images d m)
       \<and> filter (\<lambda>e. \<not> is_gpu_log e) (fst (do_interpolation (h\<lparr>list_physical_devices := g\<rparr>) images d m)) =
           filter (\<lambda>e. \<not> is_gpu_log e) (fst (do_interpolation h images d m))"
proof (cases "shape images")
  case Nil
  then show ?thesis by (simp add: do_interpolation_def size0_def)
next
  case (Cons n s)
  show ?thesis
  proof (cases "n = 0")
    case True
    with Cons show ?thesis by (simp add: do_interpolation_empty)
  next
    case False
    then have n: "0 < n" by simp
    have g: "delegate_gen (h\<lparr>list_physical_devices := g\<rparr>) images d m = delegate_gen h images d m"
      by (simp add: delegate_gen_def)
    obtain tr r where l: "(for_frames (processing_interrupted h) 0 (delegate_gen h images d m) []
        :: ('a, 'm) run_call event list \<times> ('e error + 'a tensor list)) = (tr, r)"
      by (cases "for_frames (processing_interrupted h) 0 (delegate_gen h images d m) []
        :: ('a, 'm) run_call event list \<times> ('e error + 'a tensor list)") 
    show ?thesis
      unfolding do_interpolation_loop [OF Cons n] g
      using l preamble_without_gpu_log [where h = h and g = g and images = images and d = d and m = m]
      by (simp split: sum.splits)
  qed
qed

text \<open>
  C10. Two runs that differ only in the GPUs TensorFlow lists have the same result, the
  same batch or the same error, and the same trace but for the log line about the GPU:
  the list decides which of two lines is logged and nothing else.
\<close>

theorem C10_gpu_list_does_not_change_the_run:
  fixes h :: "('a, 'm, 'e) host"
  shows "snd (do_interpolation (h\<lparr>list_physical_devices := g1\<rparr>) images d m) =
           snd (do_interpolation (h\<lparr>list_physical_devices := g2\<rparr>) images d m)
       \<and> filter (\<lambda>e. \<not> is_gpu_log e)
           (fst (do_interpolation (h\<lparr>list_physical_devices := g1\<rparr>) images d m)) =
         filter (\<lambda>e. \<not> is_gpu_log e)
           (fst (do_interpolation (h\<lparr>list_physical_devices := g2\<rparr>) images d m))"
  using do_interpolation_gpu [where h = h and g = g1 and images = images and d = d and m = m]
    do_interpolation_gpu [where h = h and g = g2 and images = images and d = d and m = m]
  by simp

theorem C10_gpu_list_does_not_change_the_run_witness:
  "snd (do_interpolation (stub_host\<lparr>list_physical_devices := []\<rparr>) stub_images 1 ()) =
   snd (do_interpolation (stub_host\<lparr>list_physical_devices := [''GPU:0'']\<rparr>) stub_images 1 ())"
  using C10_gpu_list_does_not_change_the_run
    [where h = stub_host and ?g1.0 = "[]" and ?g2.0 = "[''GPU:0'']" and images = stub_images
       and d = 1 and m = "()"]
  by (elim conjE)

section \<open>The claims about \<open>load_model\<close> and the input schemas\<close>

lemma exists_path_parent: "exists_path fs (joinpath p name) \<Longrightarrow> exists_path fs p"
  unfolding exists_path_def joinpath_def list_ex_iff
  by (blast dest: append_prefixD)

lemma joinpath_neq: "joinpath p name \<noteq> p"
  by (simp add: joinpath_def)

lemma load_model_marker:
  assumes "exists_path fs (joinpath (joinpath (joinpath models_dir ''FILM'') film_model) ''saved_model.pb'')"
  shows "load_model fs models_dir Interpolator film_model =
    ([Log Info (LoadingModel (joinpath (joinpath models_dir ''FILM'') film_model)),
      Call (NewInterpolator (as_posix (joinpath (joinpath models_dir ''FILM'') film_model)))],
     case Interpolator (as_posix (joinpath (joinpath models_dir ''FILM'') film_model)) of
       Inl e \<Rightarrow> Inl (DelegateError e) | Inr h \<Rightarrow> Inr h)"
  using assms exists_path_parent [OF assms] by (simp add: load_model_def Let_def)

lemma load_model_fallback:
  assumes "\<not> exists_path fs (joinpath (joinpath (joinpath models_dir ''FILM'') film_model) ''saved_model.pb'')"
    and "exists_path fs (joinpath (joinpath (joinpath models_dir ''FILM'') film_model) ''saved_model'')"
  shows "load_model fs models_dir Interpolator film_model =
    ([Log Info (LoadingModel (joinpath (joinpath (joinpath models_dir ''FILM'') film_model) ''saved_model'')),
      Call (NewInterpolator (as_posix (joinpath (joinpath (joinpath models_dir ''FILM'') film_model) ''saved_model'')))],
     case Interpolator (as_posix (joinpath (joinpath (joinpath models_dir ''FILM'') film_model) ''saved_model'')) of
       Inl e \<Rightarrow> Inl (DelegateError e) | Inr h \<Rightarrow> Inr h)"
  using assms by (simp add: load_model_def Let_def)

lemma load_model_missing:
  assumes "\<not> exists_path fs (joinpath (joinpath (joinpath models_dir ''FILM'') film_model) ''saved_model.pb'')"
    and "\<not> exists_path fs (joinpath (joinpath (joinpath models_dir ''FILM'') film_model) ''saved_model'')"
  shows "load_model fs models_dir Interpolator film_model =
    ([Log Error (ModelDoesNotExist (joinpath (joinpath (joinpath models_dir ''FILM'') film_model) ''saved_model''))],
     Inl (ValueError (ModelDoesNotExist (joinpath (joinpath (joinpath models_dir ''FILM'') film_model) ''saved_model''))))"
  using assms by (simp add: load_model_def Let_def)

text \<open>
  C1. For each of the three presets, when neither the marker file \<open>saved_model.pb\<close> at
  the top of \<open>models_dir/FILM/film_model\<close> nor the subdirectory \<open>saved_model\<close> exists,
  \<open>load_model\<close> fails with the \<open>ValueError\<close> "Model ... does not exist" (the error the
  spec calls not found). It raises that error in no other case, and any other error of
  a load is one the library's constructor raised.
\<close>

theorem C1_missing_model_is_the_only_local_error:
  fixes Interpolator :: "string \<Rightarrow> 'e + 'h"
  assumes "film_model \<in> set [''L1'', ''Style'', ''VGG'']"
  shows "(\<not> exists_path fs (joinpath (joinpath (joinpath models_dir ''FILM'') film_model) ''saved_model.pb'') \<and>
          \<not> exists_path fs (joinpath (joinpath (joinpath models_dir ''FILM'') film_model) ''saved_model'')
          \<longrightarrow> snd (load_model fs models_dir Interpolator film_model) =
                Inl (ValueError (ModelDoesNotExist
                  (joinpath (joinpath (joinpath models_dir ''FILM'') film_model) ''saved_model''))))
    \<and> (\<forall>x. snd (load_model fs models_dir Interpolator film_model) = Inl (ValueError x) \<longrightarrow>
          \<not> exists_path fs (joinpath (joinpath (joinpath models_dir ''FILM'') film_model) ''saved_model.pb'') \<and>
          \<not> exists_path fs (joinpath (joinpath (joinpath models_dir ''FILM'') film_model) ''saved_model''))
    \<and> (\<forall>err. snd (load_model fs models_dir Interpolator film_model) = Inl err \<longrightarrow>
          (\<exists>x. err = ValueError x) \<or> (\<exists>e p. err = DelegateError e \<and> Interpolator p = Inl e))"
proof -
  let ?dir = "joinpath (joinpath models_dir ''FILM'') film_model"
  let ?marker = "exists_path fs (joinpath ?dir ''saved_model.pb'')"
  let ?fallback = "exists_path fs (joinpath ?dir ''saved_model'')"
  consider (marker) ?marker | (fallback) "\<not> ?marker" ?fallback | (missing) "\<not> ?marker" "\<not> ?fallback"
    by blast
  then show ?thesis
  proof cases
    case marker
    then show ?thesis
      unfolding load_model_marker [OF marker] by (auto split: sum.splits)
  next
    case fallback
    then show ?thesis
      unfolding load_model_fallback [OF fallback] by (auto split: sum.splits)
  next
    case missing
    then show ?thesis
      unfolding load_model_missing [OF missing] by simp
  qed
qed

lemma bare_fs_VGG:
  "\<not> exists_path bare_fs (joinpath (joinpath (joinpath stub_models_dir ''FILM'') ''VGG'') ''saved_model.pb'')"
  "\<not> exists_path bare_fs (joinpath (joinpath (joinpath stub_models_dir ''FILM'') ''VGG'') ''saved_model'')"
  by (simp_all add: exists_path_def joinpath_def bare_fs_def stub_models_dir_def)

lemma stub_fs_Style:
  "exists_path stub_fs (joinpath (joinpath (joinpath stub_models_dir ''FILM'') ''Style'') ''saved_model.pb'')"
  by (simp add: exists_path_def joinpath_def stub_fs_def stub_models_dir_def)

lemma stub_fs_L1:
  "\<not> exists_path stub_fs (joinpath (joinpath (joinpath stub_models_dir ''FILM'') ''L1'') ''saved_model.pb'')"
  "exists_path stub_fs (joinpath (joinpath (joinpath stub_models_dir ''FILM'') ''L1'') ''saved_model'')"
  by (simp_all add: exists_path_def joinpath_def stub_fs_def stub_models_dir_def)

theorem C1_missing_model_is_the_only_local_error_witness:
  "''VGG'' \<in> set [''L1'', ''Style'', ''VGG''] \<and>
   \<not> exists_path bare_fs (joinpath (joinpath (joinpath stub_models_dir ''FILM'') ''VGG'') ''saved_model.pb'') \<and>
   \<not> exists_path bare_fs (joinpath (joinpath (joinpath stub_models_dir ''FILM'') ''VGG'') ''saved_model'') \<and>
   snd (load_model bare_fs stub_models_dir stub_Interpolator ''VGG'') =
     Inl (ValueError (ModelDoesNotExist
       (joinpath (joinpath (joinpath stub_models_dir ''FILM'') ''VGG'') ''saved_model'')))"
proof -
  have m: "''VGG'' \<in> set [''L1'', ''Style'', ''VGG'']" by simp
  from C1_missing_model_is_the_only_local_error
    [OF m, where fs = bare_fs and models_dir = stub_models_dir and Interpolator = stub_Interpolator]
    bare_fs_VGG
  have r: "snd (load_model bare_fs stub_models_dir stub_Interpolator ''VGG'') =
     Inl (ValueError (ModelDoesNotExist
       (joinpath (joinpath (joinpath stub_models_dir ''FILM'') ''VGG'') ''saved_model'')))"
    by blast
  from m bare_fs_VGG r show ?thesis by (intro conjI)
qed

text \<open>
  C7. For each preset the model path is \<open>models_dir/FILM/film_model\<close> when the marker
  file \<open>saved_model.pb\<close> exists in it, and its subdirectory \<open>saved_model\<close> when it does
  not (the two paths differ). When the path exists, the trace is the info line with the
  path and then the call of the constructor on that path; when it does not, the trace is
  the error line and the constructor is not called.
\<close>

theorem C7_model_path_resolution:
  fixes Interpolator :: "string \<Rightarrow> 'e + 'h"
  assumes "film_model \<in> set [''L1'', ''Style'', ''VGG'']"
  shows "(exists_path fs (joinpath (joinpath (joinpath models_dir ''FILM'') film_model) ''saved_model.pb'')
          \<longrightarrow> fst (load_model fs models_dir Interpolator film_model) =
               [Log Info (LoadingModel (joinpath (joinpath models_dir ''FILM'') film_model)),
                Call (NewInterpolator (as_posix (joinpath (joinpath models_dir ''FILM'') film_model)))])
    \<and> (\<not> exists_path fs (joinpath (joinpath (joinpath models_dir ''FILM'') film_model) ''saved_model.pb'') \<and>
        exists_path fs (joinpath (joinpath (joinpath models_dir ''FILM'') film_model) ''saved_model'')
          \<longrightarrow> fst (load_model fs models_dir Interpolator film_model) =
               [Log Info (LoadingModel
                  (joinpath (joinpath (joinpath models_dir ''FILM'') film_model) ''saved_model'')),
                Call (NewInterpolator (as_posix
                  (joinpath (joinpath (joinpath models_dir ''FILM'') film_model) ''saved_model'')))])
    \<and> (\<not> exists_path fs (joinpath (joinpath (joinpath models_dir ''FILM'') film_model) ''saved_model.pb'') \<and>
        \<not> exists_path fs (joinpath (joinpath (joinpath models_dir ''FILM'') film_model) ''saved_model'')
          \<longrightarrow> fst (load_model fs models_dir Interpolator film_model) =
               [Log Error (ModelDoesNotExist
                  (joinpath (joinpath (joinpath models_dir ''FILM'') film_model) ''saved_model''))])
    \<and> joinpath (joinpath (joinpath models_dir ''FILM'') film_model) ''saved_model'' \<noteq>
        joinpath (joinpath models_dir ''FILM'') film_model"
proof -
  let ?dir = "joinpath (joinpath models_dir ''FILM'') film_model"
  have a: "fst (load_model fs models_dir Interpolator film_model) =
      [Log Info (LoadingModel ?dir), Call (NewInterpolator (as_posix ?dir))]"
    if "exists_path fs (joinpath ?dir ''saved_model.pb'')"
    unfolding load_model_marker [OF that] by simp
  have b: "fst (load_model fs models_dir Interpolator film_model) =
      [Log Info (LoadingModel (joinpath ?dir ''saved_model'')),
       Call (NewInterpolator (as_posix (joinpath ?dir ''saved_model'')))]"
    if "\<not> exists_path fs (joinpath ?dir ''saved_model.pb'')"
      and "exists_path fs (joinpath ?dir ''saved_model'')"
    unfolding load_model_fallback [OF that] by simp
  have c: "fst (load_model fs models_dir Interpolator film_model) =
      [Log Error (ModelDoesNotExist (joinpath ?dir ''saved_model''))]"
    if "\<not> exists_path fs (joinpath ?dir ''saved_model.pb'')"
      and "\<not> exists_path fs (joinpath ?dir ''saved_model'')"
    unfolding load_model_missing [OF that] by simp
  from a b c joinpath_neq [of ?dir "''saved_model''"] show ?thesis by blast
qed

theorem C7_model_path_resolution_witness:
  "''Style'' \<in> set [''L1'', ''Style'', ''VGG''] \<and>
   exists_path stub_fs (joinpath (joinpath (joinpath stub_models_dir ''FILM'') ''Style'') ''saved_model.pb'') \<and>
   fst (load_model stub_fs stub_models_dir stub_Interpolator ''Style'') =
     [Log Info (LoadingModel (joinpath (joinpath stub_models_dir ''FILM'') ''Style'')),
      Call (NewInterpolator (as_posix (joinpath (joinpath stub_models_dir ''FILM'') ''Style'')))] \<and>
   ''L1'' \<in> set [''L1'', ''Style'', ''VGG''] \<and>
   \<not> exists_path stub_fs (joinpath (joinpath (joinpath stub_models_dir ''FILM'') ''L1'') ''saved_model.pb'') \<and>
   exists_path stub_fs (joinpath (joinpath (joinpath stub_models_dir ''FILM'') ''L1'') ''saved_model'') \<and>
   fst (load_model stub_fs stub_models_dir stub_Interpolator ''L1'') =
     [Log Info (LoadingModel
        (joinpath (joinpath (joinpath stub_models_dir ''FILM'') ''L1'') ''saved_model'')),
      Call (NewInterpolator (as_posix
        (joinpath (joinpath (joinpath stub_models_dir ''FILM'') ''L1'') ''saved_model'')))] \<and>
   as_posix (joinpath (joinpath (joinpath stub_models_dir ''FILM'') ''L1'') ''saved_model'') =
     ''/comfy/models/FILM/L1/saved_model''"
proof -
  have m1: "''Style'' \<in> set [''L1'', ''Style'', ''VGG'']" by simp
  have m2: "''L1'' \<in> set [''L1'', ''Style'', ''VGG'']" by simp
  from C7_model_path_resolution
    [OF m1, where fs = stub_fs and models_dir = stub_models_dir and Interpolator = stub_Interpolator]
    stub_fs_Style
  have r1: "fst (load_model stub_fs stub_models_dir stub_Interpolator ''Style'') =
     [Log Info (LoadingModel (joinpath (joinpath stub_models_dir ''FILM'') ''Style'')),
      Call (NewInterpolator (as_posix (joinpath (joinpath stub_models_dir ''FILM'') ''Style'')))]"
    by blast
  from C7_model_path_resolution
    [OF m2, where fs = stub_fs and models_dir = stub_models_dir and Interpolator = stub_Interpolator]
    stub_fs_L1
  have r2: "fst (load_model stub_fs stub_models_dir stub_Interpolator ''L1'') =
     [Log Info (LoadingModel
        (joinpath (joinpath (joinpath stub_models_dir ''FILM'') ''L1'') ''saved_model'')),
      Call (NewInterpolator (as_posix
        (joinpath (joinpath (joinpath stub_models_dir ''FILM'') ''L1'') ''saved_model'')))]"
    by blast
  have p: "as_posix (joinpath (joinpath (joinpath stub_models_dir ''FILM'') ''L1'') ''saved_model'') =
     ''/comfy/models/FILM/L1/saved_model''"
    by (simp add: as_posix_def joinpath_def stub_models_dir_def)
  from m1 stub_fs_Style r1 m2 stub_fs_L1 r2 p show ?thesis by (intro conjI)
qed

text \<open>
  C9. The schema of \<open>LoadFilmModel\<close> declares \<open>film_model\<close> as a choice among the three
  distinct presets \<open>L1\<close>, \<open>Style\<close> and \<open>VGG\<close>, with the default \<open>Style\<close> among them; the
  schema of \<open>FilmInterpolation\<close> declares \<open>interpolate\<close> as an integer with minimum 1,
  maximum 50 and default 2. Read as constraints, the entries admit exactly the three
  preset strings and exactly the integers from 1 to 50.
\<close>

theorem C9_declared_input_schemas:
  "map_of LoadFilmModel_INPUT_TYPES ''film_model'' = Some (Combo [''L1'', ''Style'', ''VGG''] ''Style'')
   \<and> (\<forall>a. admits (Combo [''L1'', ''Style'', ''VGG''] ''Style'') a =
         (a = StrArg ''L1'' \<or> a = StrArg ''Style'' \<or> a = StrArg ''VGG''))
   \<and> distinct [''L1'', ''Style'', ''VGG''] \<and> length [''L1'', ''Style'', ''VGG''] = 3
   \<and> admits (Combo [''L1'', ''Style'', ''VGG''] ''Style'') (StrArg ''Style'')
   \<and> map_of FilmInterpolation_INPUT_TYPES ''interpolate'' = Some (IntInput 2 1 50)
   \<and> (\<forall>a. admits (IntInput 2 1 50) a = (\<exists>i. a = IntArg i \<and> 1 \<le> i \<and> i \<le> 50))
   \<and> admits (IntInput 2 1 50) (IntArg 2)"
proof -
  have a: "admits (Combo [''L1'', ''Style'', ''VGG''] ''Style'') a =
         (a = StrArg ''L1'' \<or> a = StrArg ''Style'' \<or> a = StrArg ''VGG'')" for a
    by (cases a) auto
  have b: "admits (IntInput 2 1 50) a = (\<exists>i. a = IntArg i \<and> 1 \<le> i \<and> i \<le> 50)" for a
    by (cases a) auto
  have c: "map_of LoadFilmModel_INPUT_TYPES ''film_model'' =
      Some (Combo [''L1'', ''Style'', ''VGG''] ''Style'')"
    by (simp add: LoadFilmModel_INPUT_TYPES_def)
  have d: "map_of FilmInterpolation_INPUT_TYPES ''interpolate'' = Some (IntInput 2 1 50)"
    by (simp add: FilmInterpolation_INPUT_TYPES_def)
  from a b c d show ?thesis by simp
qed

end
